theory Spec2Isabelle
  imports Main
begin

section \<open>Python values, exceptions and the outside world\<close>

text \<open>
  The program is one Python module, \<^verbatim>\<open>standardize_HPO_symptom.py\<close>. It talks to a
  term-search web service (through \<^verbatim>\<open>requests\<close>), to the ontology file (through
  \<^verbatim>\<open>obonet\<close>) and to a fuzzy string scorer (\<^verbatim>\<open>fuzzywuzzy\<close>). None of the three libraries
  belongs to the repository: what they answer is a parameter of the model, and every
  function of the module is a HOL function of its arguments and of those answers.

  A value that travels through the module is a Python value. The bodies the search
  service sends are parsed JSON, so they are values of the same type. A JSON number is
  represented by an integer: a float takes the same branches everywhere below (truthy
  exactly when it is not zero, never subscriptable, no \<^verbatim>\<open>get\<close> method, not a string).
  A dict is an association list, read with \<open>map_of\<close>; its keys are strings, as JSON's are.
\<close>

datatype pyval =
    PNone
  | PBool bool
  | PInt int
  | PStr string
  | PList "pyval list"
  | PDict "(string \<times> pyval) list"

text \<open>
  The exceptions that the module raises or lets escape. \<open>RequestException\<close> stands for
  the whole class \<^verbatim>\<open>requests.exceptions.RequestException\<close> (connection errors, timeouts
  and the \<^verbatim>\<open>HTTPError\<close> of \<^verbatim>\<open>raise_for_status\<close>); \<open>OntologyError\<close> stands for whatever
  \<^verbatim>\<open>obonet.read_obo\<close> raises when the ontology file cannot be fetched or parsed.
\<close>

datatype py_error =
    RequestException
  | ValueError
  | KeyError
  | IndexError
  | TypeError
  | AttributeError
  | OntologyError

text \<open>
  What \<^verbatim>\<open>requests.get(url, timeout=10)\<close> gives: it raises (no answer within the wait,
  no connection), or it returns a response with a status code and a body. The body is
  \<open>None\<close> when it is not JSON, and then \<^verbatim>\<open>response.json()\<close> raises a \<^verbatim>\<open>ValueError\<close>.
\<close>

datatype http_outcome =
    Transport_Error
  | Replied nat "pyval option"

subsection \<open>The Python operations the search client applies to the body\<close>

text \<open>Truth value of an object in a condition (\<^verbatim>\<open>if results:\<close>).\<close>

fun truthy :: "pyval \<Rightarrow> bool" where
  "truthy PNone = False"
| "truthy (PBool b) = b"
| "truthy (PInt n) = (n \<noteq> 0)"
| "truthy (PStr s) = (s \<noteq> [])"
| "truthy (PList xs) = (xs \<noteq> [])"
| "truthy (PDict kvs) = (kvs \<noteq> [])"

text \<open>\<^verbatim>\<open>obj.get(key, default)\<close>: only a dict has the method.\<close>

fun py_get :: "pyval \<Rightarrow> string \<Rightarrow> pyval \<Rightarrow> py_error + pyval" where
  "py_get (PDict kvs) k dflt = Inr (case map_of kvs k of None \<Rightarrow> dflt | Some v \<Rightarrow> v)"
| "py_get _ k dflt = Inl AttributeError"

text \<open>
  \<^verbatim>\<open>obj[0]\<close>. A dict parsed from JSON has string keys, so the key \<open>0\<close> is missing; a
  string gives its first character; an empty list or string has no first element (the
  client subscripts a truthy object only, so it never meets that case).
\<close>

fun py_first :: "pyval \<Rightarrow> py_error + pyval" where
  "py_first (PList (x # xs)) = Inr x"
| "py_first (PList []) = Inl IndexError"
| "py_first (PStr (c # cs)) = Inr (PStr [c])"
| "py_first (PStr []) = Inl IndexError"
| "py_first (PDict kvs) = Inl KeyError"
| "py_first _ = Inl TypeError"

text \<open>\<^verbatim>\<open>obj["key"]\<close> with a string key: a lookup in a dict, a type error elsewhere.\<close>

fun py_item :: "pyval \<Rightarrow> string \<Rightarrow> py_error + pyval" where
  "py_item (PDict kvs) k = (case map_of kvs k of None \<Rightarrow> Inl KeyError | Some v \<Rightarrow> Inr v)"
| "py_item _ k = Inl TypeError"

text \<open>\<^verbatim>\<open>response.raise_for_status()\<close> raises for the client and server error codes.\<close>

definition raise_for_status :: "nat \<Rightarrow> py_error + unit" where
  "raise_for_status code = (if 400 \<le> code \<and> code < 600 then Inl RequestException else Inr ())"

section \<open>Step 1: the term search client\<close>

definition search_url :: "string \<Rightarrow> string" where
  "search_url symptom = ''https://ontology.jax.org/api/hp/search/?q='' @ symptom"

text \<open>
  The body of the \<^verbatim>\<open>try\<close> block of \<^verbatim>\<open>map_symptoms_to_hpo\<close>, with everything it can
  raise; \<open>http\<close> is the answer of the service to each URL.
\<close>

definition search_attempt :: "(string \<Rightarrow> http_outcome) \<Rightarrow> string \<Rightarrow> py_error + (pyval \<times> pyval)" where
  "search_attempt http symptom =
     (case http (search_url symptom) of
        Transport_Error \<Rightarrow> Inl RequestException
      | Replied code body \<Rightarrow>
          (case raise_for_status code of
             Inl e \<Rightarrow> Inl e
           | Inr _ \<Rightarrow>
               (case body of
                  None \<Rightarrow> Inl ValueError
                | Some json_data \<Rightarrow>
                    (case py_get json_data ''terms'' (PList []) of
                       Inl e \<Rightarrow> Inl e
                     | Inr results \<Rightarrow>
                         if truthy results then
                           (case py_first results of
                              Inl e \<Rightarrow> Inl e
                            | Inr top_hit \<Rightarrow>
                                (case py_item top_hit ''name'' of
                                   Inl e \<Rightarrow> Inl e
                                 | Inr nm \<Rightarrow>
                                     (case py_item top_hit ''id'' of
                                        Inl e \<Rightarrow> Inl e
                                      | Inr ident \<Rightarrow> Inr (nm, ident))))
                         else Inr (PNone, PNone)))))"

text \<open>
  The two \<^verbatim>\<open>except\<close> clauses: a \<^verbatim>\<open>RequestException\<close> and a \<^verbatim>\<open>ValueError\<close> become the
  pair \<open>(None, None)\<close>; any other exception leaves the function.
\<close>

definition map_symptoms_to_hpo :: "(string \<Rightarrow> http_outcome) \<Rightarrow> string \<Rightarrow> py_error + (pyval \<times> pyval)" where
  "map_symptoms_to_hpo http symptom =
     (case search_attempt http symptom of
        Inl RequestException \<Rightarrow> Inr (PNone, PNone)
      | Inl ValueError \<Rightarrow> Inr (PNone, PNone)
      | Inl e \<Rightarrow> Inl e
      | Inr found \<Rightarrow> Inr found)"

section \<open>Step 2: the similarity scorer\<close>

text \<open>
  \<^verbatim>\<open>process.extractOne(input_term, [hpo_term])\<close> returns the one choice with its score;
  the score the library reports for a query and a single choice is the parameter
  \<open>extract_score\<close>. The function itself only adds the \<^verbatim>\<open>isinstance\<close> guard.
\<close>

definition estimate_fuzzy_score :: "(string \<Rightarrow> pyval \<Rightarrow> int) \<Rightarrow> pyval \<Rightarrow> pyval \<Rightarrow> py_error + int" where
  "estimate_fuzzy_score extract_score input_term hpo_term =
     (case input_term of
        PStr s \<Rightarrow> Inr (extract_score s hpo_term)
      | _ \<Rightarrow> Inl ValueError)"

section \<open>The ontology graph and the process state\<close>

text \<open>
  \<^verbatim>\<open>obonet.read_obo\<close> returns a graph whose nodes are keyed by term identifier and carry
  a dict of attributes. The module reads four keys, \<^verbatim>\<open>'name'\<close>, \<^verbatim>\<open>'synonyms'\<close>, \<^verbatim>\<open>'def'\<close> and
  \<^verbatim>\<open>'is_a'\<close>, each with \<^verbatim>\<open>get\<close> and a default, so a node is the record of those four
  entries, \<open>None\<close> where the key is missing. The graph is the list of its nodes in the
  order of the file, read with \<open>map_of\<close>.
\<close>

record node =
  node_name :: "string option"
  node_synonyms :: "string list option"
  node_def :: "string option"
  node_is_a :: "string list option"

type_synonym graph = "(string \<times> node) list"

text \<open>
  The libraries' answers. \<open>ontology n\<close> is what the fetch number \<open>n\<close> of the ontology
  file gives in this process: the parsed graph, or an exception. The file may change
  between two fetches, so the answer depends on \<open>n\<close>.

  \<open>str_lower\<close> is Python's built-in \<^verbatim>\<open>str.lower\<close>. It folds every cased letter of Unicode,
  by a table that is part of the interpreter and not of the repository, so the string
  it returns is a parameter as well: every property below holds whatever that table is.
\<close>

record services =
  http :: "string \<Rightarrow> http_outcome"
  extract_score :: "string \<Rightarrow> pyval \<Rightarrow> int"
  ontology :: "nat \<Rightarrow> py_error + graph"
  str_lower :: "string \<Rightarrow> string"

text \<open>
  The state of the process: how many times the ontology file has been fetched and
  parsed so far, and the one slot of the \<^verbatim>\<open>lru_cache(maxsize=1)\<close> around \<^verbatim>\<open>load_graph\<close>.
\<close>

record process =
  fetches :: nat
  graph_cache :: "graph option"

definition fresh_process :: process where
  "fresh_process = \<lparr>fetches = 0, graph_cache = None\<rparr>"

text \<open>One call of \<^verbatim>\<open>obonet.read_obo(url)\<close>.\<close>

definition read_obo :: "services \<Rightarrow> process \<Rightarrow> (py_error + graph) \<times> process" where
  "read_obo sv s = (ontology sv (fetches s), s\<lparr>fetches := Suc (fetches s)\<rparr>)"

text \<open>
  \<^verbatim>\<open>load_graph\<close> under its cache: the cached graph when there is one, else a fetch whose
  result is kept. An exception is not cached.
\<close>

definition load_graph :: "services \<Rightarrow> process \<Rightarrow> (py_error + graph) \<times> process" where
  "load_graph sv s =
     (case graph_cache s of
        Some g \<Rightarrow> (Inr g, s)
      | None \<Rightarrow>
          (case read_obo sv s of
             (Inl e, s') \<Rightarrow> (Inl e, s')
           | (Inr g, s') \<Rightarrow> (Inr g, s'\<lparr>graph_cache := Some g\<rparr>)))"

section \<open>Step 3: synonyms and definition\<close>

text \<open>
  \<^verbatim>\<open>hpo_id in graph.nodes\<close> is a lookup in the dict of nodes: a list or a dict cannot be
  hashed and the test raises \<^verbatim>\<open>TypeError\<close>; any other value that is not a string is
  simply not a key.
\<close>

fun in_nodes :: "graph \<Rightarrow> pyval \<Rightarrow> py_error + node option" where
  "in_nodes g (PStr i) = Inr (map_of g i)"
| "in_nodes g (PList xs) = Inl TypeError"
| "in_nodes g (PDict kvs) = Inl TypeError"
| "in_nodes g _ = Inr None"

text \<open>\<^verbatim>\<open>graph.nodes[hpo_id].get('synonyms', [])\<close> and \<^verbatim>\<open>.get('def', 'NA')\<close>.\<close>

definition synonyms_of :: "node \<Rightarrow> string list" where
  "synonyms_of n = (case node_synonyms n of None \<Rightarrow> [] | Some syns \<Rightarrow> syns)"

definition definition_of :: "node \<Rightarrow> string" where
  "definition_of n = (case node_def n of None \<Rightarrow> ''NA'' | Some d \<Rightarrow> d)"

text \<open>
  The result is the pair (synonyms, definition), each \<open>None\<close> for Python's \<^verbatim>\<open>None\<close>.
  The graph is read afresh at every call.
\<close>

definition get_hpo_definitions_and_synonyms ::
  "services \<Rightarrow> pyval \<Rightarrow> process \<Rightarrow> (py_error + (string list option \<times> string option)) \<times> process" where
  "get_hpo_definitions_and_synonyms sv hpo_id s =
     (case read_obo sv s of
        (Inl e, s') \<Rightarrow> (Inl e, s')
      | (Inr g, s') \<Rightarrow>
          (case in_nodes g hpo_id of
             Inl e \<Rightarrow> (Inl e, s')
           | Inr (Some n) \<Rightarrow>
               (Inr (Some (synonyms_of n), Some (definition_of n)), s')
           | Inr None \<Rightarrow> (Inr (None, None), s')))"

section \<open>Step 4: lineage\<close>

definition root_id :: string where
  "root_id = ''HP:0000001''"

text \<open>\<^verbatim>\<open>graph.nodes[current].get("is_a", [])\<close> for a node that is in the graph.\<close>

definition parents_of :: "node \<Rightarrow> string list" where
  "parents_of n = (case node_is_a n of None \<Rightarrow> [] | Some ps \<Rightarrow> ps)"

text \<open>
  The \<^verbatim>\<open>while True\<close> loop, from the state (current, path, depth) at the top of an
  iteration to the state at the \<^verbatim>\<open>break\<close>. \<^verbatim>\<open>graph.nodes[current]\<close> raises \<^verbatim>\<open>KeyError\<close>
  for an identifier that is not a node. The loop may run forever: then the value is
  \<open>None\<close>.
\<close>

partial_function (option) walk ::
  "graph \<Rightarrow> string \<Rightarrow> string list \<Rightarrow> nat \<Rightarrow> (py_error + (nat \<times> string list)) option" where
  "walk g current path depth =
     (case map_of g current of
        None \<Rightarrow> Some (Inl KeyError)
      | Some n \<Rightarrow>
          (case parents_of n of
             [] \<Rightarrow> Some (Inr (depth, path))
           | p # ps \<Rightarrow>
               if p = root_id then Some (Inr (depth + 1, path @ [p]))
               else walk g p (path @ [p]) (depth + 1)))"

declare walk.simps [code]

text \<open>
  \<^verbatim>\<open>hpo_id not in graph\<close> is the graph's own membership test, which answers \<^verbatim>\<open>False\<close>
  for a value that cannot be hashed.
\<close>

fun in_graph :: "graph \<Rightarrow> pyval \<Rightarrow> string option" where
  "in_graph g (PStr i) = (if map_of g i = None then None else Some i)"
| "in_graph g _ = None"

text \<open>The result is the pair (rank, path) with the path from the last node reached down
  to the queried one.\<close>

definition get_rank_and_path ::
  "services \<Rightarrow> pyval \<Rightarrow> process \<Rightarrow> ((py_error + (nat option \<times> string list)) \<times> process) option" where
  "get_rank_and_path sv hpo_id s =
     (case load_graph sv s of
        (Inl e, s') \<Rightarrow> Some (Inl e, s')
      | (Inr g, s') \<Rightarrow>
          (case in_graph g hpo_id of
             None \<Rightarrow> Some (Inr (None, []), s')
           | Some i \<Rightarrow>
               (case walk g i [i] 0 of
                  None \<Rightarrow> None
                | Some (Inl e) \<Rightarrow> Some (Inl e, s')
                | Some (Inr (depth, path)) \<Rightarrow> Some (Inr (Some depth, rev path), s'))))"

section \<open>The pipeline\<close>

text \<open>
  The condition of step 5,
  \<^verbatim>\<open>fuzzy_score >= 80 or (hpo_term.lower() in [s.lower() for s in synonyms])\<close>.
  Python evaluates the right operand only when the left one is false; then
  \<^verbatim>\<open>hpo_term.lower()\<close> comes first (it needs a string) and the comprehension next (it
  needs something to iterate over). \<open>lower\<close> is what \<^verbatim>\<open>str.lower\<close> returns.
\<close>

definition acceptable ::
  "(string \<Rightarrow> string) \<Rightarrow> int \<Rightarrow> pyval \<Rightarrow> string list option \<Rightarrow> py_error + bool" where
  "acceptable lower fuzzy_score hpo_term synonyms =
     (if 80 \<le> fuzzy_score then Inr True
      else
        (case hpo_term of
           PStr t \<Rightarrow>
             (case synonyms of
                None \<Rightarrow> Inl TypeError
              | Some syns \<Rightarrow> Inr (lower t \<in> set (map lower syns)))
         | _ \<Rightarrow> Inl AttributeError))"

text \<open>A field of the returned tuple that is a value or \<^verbatim>\<open>None\<close>.\<close>

definition opt_val :: "('a \<Rightarrow> pyval) \<Rightarrow> 'a option \<Rightarrow> pyval" where
  "opt_val f x = (case x of None \<Rightarrow> PNone | Some v \<Rightarrow> f v)"

text \<open>
  \<^verbatim>\<open>map_symptoms_to_hpo_pipeline\<close>. The returned tuple is the list of its fields. The
  argument is a string, as the docstring has it.
\<close>

definition map_symptoms_to_hpo_pipeline ::
  "services \<Rightarrow> string \<Rightarrow> process \<Rightarrow> ((py_error + pyval list) \<times> process) option" where
  "map_symptoms_to_hpo_pipeline sv symptom s =
     (case map_symptoms_to_hpo (http sv) symptom of
        Inl e \<Rightarrow> Some (Inl e, s)
      | Inr (hpo_term, hpo_id) \<Rightarrow>
          if hpo_term = PNone \<or> hpo_id = PNone then
            Some (Inr [PStr symptom, PNone, PNone, PInt 0, PStr ''not matched''], s)
          else
            (case estimate_fuzzy_score (extract_score sv) (PStr symptom) hpo_term of
               Inl e \<Rightarrow> Some (Inl e, s)
             | Inr fuzzy_score \<Rightarrow>
                 (case get_hpo_definitions_and_synonyms sv hpo_id s of
                    (Inl e, s1) \<Rightarrow> Some (Inl e, s1)
                  | (Inr (synonyms, definition), s1) \<Rightarrow>
                      (case get_rank_and_path sv hpo_id s1 of
                         None \<Rightarrow> None
                       | Some (Inl e, s2) \<Rightarrow> Some (Inl e, s2)
                       | Some (Inr (rank, path), s2) \<Rightarrow>
                           (case acceptable (str_lower sv) fuzzy_score hpo_term synonyms of
                              Inl e \<Rightarrow> Some (Inl e, s2)
                            | Inr ok \<Rightarrow>
                                Some (Inr [PStr symptom, hpo_term, hpo_id,
                                           opt_val PStr definition,
                                           opt_val (\<lambda>d. PInt (int d)) rank,
                                           PList (map PStr path),
                                           PInt fuzzy_score,
                                           PStr (if ok then ''matched'' else ''not matched'')],
                                      s2))))))"

section \<open>The two lookup helpers and the module's last lines\<close>

text \<open>
  \<^verbatim>\<open>get_hpo_id_from_term\<close> goes through the nodes in order and returns the first one
  whose name, lowered, is the lowered term; a node without a name counts as the empty
  name.
\<close>

definition get_hpo_id_from_term ::
  "services \<Rightarrow> string \<Rightarrow> process \<Rightarrow> (py_error + string option) \<times> process" where
  "get_hpo_id_from_term sv hpo_term s =
     (case read_obo sv s of
        (Inl e, s') \<Rightarrow> (Inl e, s')
      | (Inr g, s') \<Rightarrow>
          (Inr (map_option fst
                  (find (\<lambda>(node_id, dat).
                           str_lower sv (case node_name dat of None \<Rightarrow> [] | Some nm \<Rightarrow> nm)
                             = str_lower sv hpo_term) g)),
           s'))"

definition get_hpo_term_from_id ::
  "services \<Rightarrow> pyval \<Rightarrow> process \<Rightarrow> (py_error + string option) \<times> process" where
  "get_hpo_term_from_id sv hpo_id s =
     (case read_obo sv s of
        (Inl e, s') \<Rightarrow> (Inl e, s')
      | (Inr g, s') \<Rightarrow>
          (case in_nodes g hpo_id of
             Inl e \<Rightarrow> (Inl e, s')
           | Inr (Some n) \<Rightarrow> (Inr (node_name n), s')
           | Inr None \<Rightarrow> (Inr None, s')))"

text \<open>
  The module ends with a call of \<^verbatim>\<open>get_hpo_term_from_id("HP:0025142")\<close>, which runs when
  the module is imported, in the fresh process.
\<close>

definition module_import :: "services \<Rightarrow> (py_error + string option) \<times> process" where
  "module_import sv = get_hpo_term_from_id sv (PStr ''HP:0025142'') fresh_process"

section \<open>Notions the properties are stated with\<close>

text \<open>\<^verbatim>\<open>isinstance(v, str)\<close>.\<close>

fun is_str :: "pyval \<Rightarrow> bool" where
  "is_str (PStr s) = True"
| "is_str _ = False"

text \<open>A node of the graph without parents, and the first listed parent of a node.\<close>

definition parentless :: "graph \<Rightarrow> string \<Rightarrow> bool" where
  "parentless g c = (case map_of g c of None \<Rightarrow> False | Some n \<Rightarrow> parents_of n = [])"

definition first_parent :: "graph \<Rightarrow> string \<Rightarrow> string option" where
  "first_parent g c =
     (case map_of g c of
        None \<Rightarrow> None
      | Some n \<Rightarrow> (case parents_of n of [] \<Rightarrow> None | p # ps \<Rightarrow> Some p))"

text \<open>
  \<open>chain g c ext\<close>: the identifiers \<open>ext\<close> are the ones appended to the path by a walk
  that starts at \<open>c\<close>: each is the first parent of the one before, the walk goes on
  through nodes that are not the root, and it ends at the root or at a node without
  parents.
\<close>

fun chain :: "graph \<Rightarrow> string \<Rightarrow> string list \<Rightarrow> bool" where
  "chain g c [] = parentless g c"
| "chain g c (x # xs) =
     (first_parent g c = Some x \<and> (if x = root_id then xs = [] else chain g x xs))"

text \<open>
  \<open>ends g k c\<close>: following first parents from \<open>c\<close> reaches the root or a node without
  parents within \<open>k\<close> hops.
\<close>

fun ends :: "graph \<Rightarrow> nat \<Rightarrow> string \<Rightarrow> bool" where
  "ends g 0 c = (c = root_id \<or> parentless g c)"
| "ends g (Suc k) c =
     (c = root_id \<or> parentless g c \<or>
      (case first_parent g c of None \<Rightarrow> False | Some p \<Rightarrow> ends g k p))"

text \<open>The first-parent relation of a graph, from child to parent.\<close>

definition parent_rel :: "graph \<Rightarrow> (string \<times> string) set" where
  "parent_rel g = {(c, p). first_parent g c = Some p}"

text \<open>
  The Match Result with its eight fields in the order of the code's full tuple:
  symptom, term name, identifier, definition, rank, path, score, status.
\<close>

definition match_result ::
  "string \<Rightarrow> pyval \<Rightarrow> pyval \<Rightarrow> string option \<Rightarrow> nat option \<Rightarrow> string list \<Rightarrow> int \<Rightarrow> string \<Rightarrow> pyval list" where
  "match_result symptom hpo_term hpo_id definition rank path score status =
     [PStr symptom, hpo_term, hpo_id, opt_val PStr definition, opt_val (\<lambda>d. PInt (int d)) rank,
      PList (map PStr path), PInt score, PStr status]"

text \<open>
  The candidate name, compared without case, is one of the candidate's synonyms;
  \<open>lower\<close> is the case folding used for the comparison.
\<close>

fun name_in_synonyms :: "(string \<Rightarrow> string) \<Rightarrow> pyval \<Rightarrow> string list option \<Rightarrow> bool" where
  "name_in_synonyms lower (PStr t) (Some syns) = (lower t \<in> set (map lower syns))"
| "name_in_synonyms lower _ _ = False"

section \<open>Sample worlds\<close>

text \<open>
  A small ontology: the root, one child of the root without a recorded definition, one
  grandchild, and one node that lists no parent and is not the root.
\<close>

definition hpo_sample :: graph where
  "hpo_sample =
     [(''HP:0000001'',
         \<lparr>node_name = Some ''All'', node_synonyms = None, node_def = None, node_is_a = None\<rparr>),
      (''HP:0000118'',
         \<lparr>node_name = Some ''Phenotypic abnormality'', node_synonyms = Some [''Organ abnormality''],
          node_def = None, node_is_a = Some [''HP:0000001'']\<rparr>),
      (''HP:0000508'',
         \<lparr>node_name = Some ''Ptosis'', node_synonyms = Some [''Blepharoptosis'', ''PTOSIS''],
          node_def = Some ''Drooping of the upper eyelid.'', node_is_a = Some [''HP:0000118'']\<rparr>),
      (''HP:0000057'',
         \<lparr>node_name = Some ''Retired term'', node_synonyms = None, node_def = None,
          node_is_a = None\<rparr>)]"

text \<open>A graph whose two nodes list each other as first parent.\<close>

definition hpo_cycle :: graph where
  "hpo_cycle =
     [(''HP:0000002'',
         \<lparr>node_name = None, node_synonyms = None, node_def = None, node_is_a = Some [''HP:0000003'']\<rparr>),
      (''HP:0000003'',
         \<lparr>node_name = None, node_synonyms = None, node_def = None, node_is_a = Some [''HP:0000002'']\<rparr>)]"

text \<open>A search service that answers every query with status 200 and the given \<open>terms\<close>.\<close>

definition reply_terms :: "pyval list \<Rightarrow> string \<Rightarrow> http_outcome" where
  "reply_terms ts u = Replied 200 (Some (PDict [(''terms'', PList ts)]))"

definition hit :: "string \<Rightarrow> string \<Rightarrow> pyval" where
  "hit nm ident = PDict [(''name'', PStr nm), (''id'', PStr ident)]"

text \<open>
  The strings of the sample worlds are ASCII text, on which \<^verbatim>\<open>str.lower\<close> moves the
  letters \<open>A\<close> to \<open>Z\<close> to \<open>a\<close> to \<open>z\<close> and leaves every other character as it is.
\<close>

definition ascii_lower_char :: "char \<Rightarrow> char" where
  "ascii_lower_char c =
     (case map_of (zip ''ABCDEFGHIJKLMNOPQRSTUVWXYZ'' ''abcdefghijklmnopqrstuvwxyz'') c of
        None \<Rightarrow> c
      | Some l \<Rightarrow> l)"

definition ascii_lower :: "string \<Rightarrow> string" where
  "ascii_lower s = map ascii_lower_char s"

text \<open>
  The world in which the search answers with \<open>ts\<close>, the scorer reports \<open>score\<close> and
  every fetch of the ontology gives the sample graph.
\<close>

definition sample_services :: "pyval list \<Rightarrow> int \<Rightarrow> services" where
  "sample_services ts score =
     \<lparr>http = reply_terms ts, extract_score = (\<lambda>q c. score), ontology = (\<lambda>n. Inr hpo_sample),
      str_lower = ascii_lower\<rparr>"

text \<open>
  Two worlds in which the search finds Ptosis and the scorer reports 80: in the first
  the ontology file cannot be fetched, in the second the ontology is the graph whose
  two nodes list each other as parent and the search names one of them.
\<close>

definition offline_services :: services where
  "offline_services =
     \<lparr>http = reply_terms [hit ''Ptosis'' ''HP:0000508''], extract_score = (\<lambda>q c. 80),
      ontology = (\<lambda>n. Inl OntologyError), str_lower = ascii_lower\<rparr>"

definition cycle_services :: services where
  "cycle_services =
     \<lparr>http = reply_terms [hit ''Ptosis'' ''HP:0000002''], extract_score = (\<lambda>q c. 80),
      ontology = (\<lambda>n. Inr hpo_cycle), str_lower = ascii_lower\<rparr>"

section \<open>The search client\<close>

lemma search_transport_error:
  "h (search_url symptom) = Transport_Error \<Longrightarrow>
     map_symptoms_to_hpo h symptom = Inr (PNone, PNone)"
  by (simp add: map_symptoms_to_hpo_def search_attempt_def)

lemma search_error_status:
  "h (search_url symptom) = Replied code body \<Longrightarrow> 400 \<le> code \<Longrightarrow> code < 600 \<Longrightarrow>
     map_symptoms_to_hpo h symptom = Inr (PNone, PNone)"
  by (simp add: map_symptoms_to_hpo_def search_attempt_def raise_for_status_def)

lemma search_not_json:
  "h (search_url symptom) = Replied code None \<Longrightarrow>
     map_symptoms_to_hpo h symptom = Inr (PNone, PNone)"
  by (simp add: map_symptoms_to_hpo_def search_attempt_def raise_for_status_def)

lemma search_first_term:
  "h (search_url symptom) = Replied code (Some (PDict kvs)) \<Longrightarrow> \<not> (400 \<le> code \<and> code < 600) \<Longrightarrow>
   map_of kvs ''terms'' = Some (PList (PDict entries # others)) \<Longrightarrow>
   map_of entries ''name'' = Some nm \<Longrightarrow> map_of entries ''id'' = Some ident \<Longrightarrow>
     map_symptoms_to_hpo h symptom = Inr (nm, ident)"
  by (auto simp add: map_symptoms_to_hpo_def search_attempt_def raise_for_status_def)

text \<open>
  Claim C4. The search client answers (None, None) on a transport error, on an error
  status and on a body that is not JSON, and it returns the name and the identifier of
  the first element of a well-formed \<open>terms\<close> array (the four lemmas above). A body that
  is JSON but whose first \<open>terms\<close> element has no \<open>name\<close> entry is not handled: the
  lookup raises \<^verbatim>\<open>KeyError\<close>, which neither \<^verbatim>\<open>except\<close> clause catches, and the exception
  leaves the function.
\<close>

theorem search_missing_field_raises:
  "map_symptoms_to_hpo (reply_terms [PDict [(''id'', PStr ''HP:0000508'')]]) ''ptosis''
     = Inl KeyError"
  by (simp add: map_symptoms_to_hpo_def search_attempt_def raise_for_status_def reply_terms_def)

section \<open>The similarity scorer\<close>

text \<open>
  Claim C5. The scorer raises the validation error (\<^verbatim>\<open>ValueError\<close>) exactly when its
  input text is not a string, it raises nothing else, and on a string it returns the
  score the library reports; an integer input is one instance of the error.
\<close>

theorem estimate_fuzzy_score_validation:
  "(estimate_fuzzy_score f v c = Inl ValueError) = (\<not> is_str v)
   \<and> ((\<exists>e. estimate_fuzzy_score f v c = Inl e) = (\<not> is_str v))
   \<and> estimate_fuzzy_score f (PStr s) c = Inr (f s c)
   \<and> estimate_fuzzy_score f (PInt k) c = Inl ValueError"
  by (cases v) (simp_all add: estimate_fuzzy_score_def)

section \<open>Fetches of the ontology file\<close>

lemma read_obo_counts: "fetches (snd (read_obo sv s)) = Suc (fetches s)"
  by (simp add: read_obo_def)

lemma load_graph_fetch:
  "graph_cache s = None \<Longrightarrow> ontology sv (fetches s) = Inr g \<Longrightarrow>
     load_graph sv s = (Inr g, s\<lparr>fetches := Suc (fetches s), graph_cache := Some g\<rparr>)"
  by (simp add: load_graph_def read_obo_def)

lemma load_graph_cached: "graph_cache s = Some g \<Longrightarrow> load_graph sv s = (Inr g, s)"
  by (simp add: load_graph_def)

lemma sample_load:
  "load_graph (sample_services ts sc) fresh_process
     = (Inr hpo_sample, \<lparr>fetches = 1, graph_cache = Some hpo_sample\<rparr>)"
  by (simp add: load_graph_def read_obo_def sample_services_def fresh_process_def)

text \<open>
  Claim C9. Only \<^verbatim>\<open>get_rank_and_path\<close> goes through the cached \<^verbatim>\<open>load_graph\<close>. The
  synonym resolver and the two lookup helpers call \<^verbatim>\<open>obonet.read_obo\<close> themselves, so
  each of their calls fetches and parses the file once more, whatever the state of the
  cache: two calls of the resolver in a fresh process make two fetches. Importing the
  module makes one fetch already, through the call in its last lines.
\<close>

theorem resolver_fetches_every_call:
  "fetches (snd (get_hpo_definitions_and_synonyms sv i s)) = Suc (fetches s)
   \<and> fetches (snd (get_hpo_term_from_id sv i s)) = Suc (fetches s)
   \<and> fetches (snd (get_hpo_id_from_term sv t s)) = Suc (fetches s)
   \<and> fetches (snd (get_hpo_definitions_and_synonyms sv j
                      (snd (get_hpo_definitions_and_synonyms sv i fresh_process)))) = 2
   \<and> fetches (snd (module_import sv)) = 1"
  by (simp add: get_hpo_definitions_and_synonyms_def get_hpo_term_from_id_def
        get_hpo_id_from_term_def module_import_def read_obo_def fresh_process_def
        split: sum.splits option.splits prod.splits)

section \<open>The synonym and definition resolver\<close>

text \<open>
  Claim C6. When the fetch gives the graph \<open>g\<close>: for an identifier that is not a node
  the resolver returns (None, None); for a node without a recorded definition it
  returns the node's synonym list and the string "NA"; and the two results differ.
\<close>

theorem resolver_absent_versus_undefined:
  assumes "ontology sv (fetches s) = Inr g"
  shows "(map_of g i = None \<longrightarrow>
            get_hpo_definitions_and_synonyms sv (PStr i) s
              = (Inr (None, None), s\<lparr>fetches := Suc (fetches s)\<rparr>))
       \<and> (\<forall>n. map_of g i = Some n \<and> node_def n = None \<longrightarrow>
            get_hpo_definitions_and_synonyms sv (PStr i) s
              = (Inr (Some (synonyms_of n), Some ''NA''), s\<lparr>fetches := Suc (fetches s)\<rparr>))
       \<and> (\<forall>j n. map_of g i = None \<and> map_of g j = Some n \<and> node_def n = None \<longrightarrow>
            fst (get_hpo_definitions_and_synonyms sv (PStr i) s)
              \<noteq> fst (get_hpo_definitions_and_synonyms sv (PStr j) s))"
  using assms
  by (simp add: get_hpo_definitions_and_synonyms_def read_obo_def definition_of_def)

theorem resolver_absent_versus_undefined_witness:
  "get_hpo_definitions_and_synonyms (sample_services [] 0) (PStr ''HP:9999999'') fresh_process
     = (Inr (None, None), \<lparr>fetches = 1, graph_cache = None\<rparr>)
   \<and> get_hpo_definitions_and_synonyms (sample_services [] 0) (PStr ''HP:0000118'') fresh_process
     = (Inr (Some [''Organ abnormality''], Some ''NA''), \<lparr>fetches = 1, graph_cache = None\<rparr>)
   \<and> fst (get_hpo_definitions_and_synonyms (sample_services [] 0) (PStr ''HP:9999999'') fresh_process)
     \<noteq> fst (get_hpo_definitions_and_synonyms (sample_services [] 0) (PStr ''HP:0000118'') fresh_process)"
proof -
  have fetch: "ontology (sample_services [] 0) (fetches fresh_process) = Inr hpo_sample"
    by (simp add: sample_services_def)
  have absent: "map_of hpo_sample ''HP:9999999'' = None"
    by (simp add: hpo_sample_def)
  have undefined_node:
    "map_of hpo_sample ''HP:0000118''
       = Some \<lparr>node_name = Some ''Phenotypic abnormality'', node_synonyms = Some [''Organ abnormality''],
               node_def = None, node_is_a = Some [''HP:0000001'']\<rparr>"
    by (simp add: hpo_sample_def)
  from resolver_absent_versus_undefined[OF fetch, of "''HP:9999999''"]
       resolver_absent_versus_undefined[OF fetch, of "''HP:0000118''"]
       absent undefined_node
  show ?thesis by (simp add: synonyms_of_def fresh_process_def)
qed

section \<open>The lineage walk\<close>

lemma walk_missing: "map_of g c = None \<Longrightarrow> walk g c path depth = Some (Inl KeyError)"
  by (subst walk.simps) simp

lemma walk_parentless: "parentless g c \<Longrightarrow> walk g c path depth = Some (Inr (depth, path))"
  by (subst walk.simps) (simp add: parentless_def split: option.splits)

lemma walk_root:
  "first_parent g c = Some root_id \<Longrightarrow> walk g c path depth = Some (Inr (depth + 1, path @ [root_id]))"
  by (subst walk.simps) (simp add: first_parent_def split: option.splits list.splits)

lemma walk_step:
  "first_parent g c = Some p \<Longrightarrow> p \<noteq> root_id \<Longrightarrow> walk g c path depth = walk g p (path @ [p]) (depth + 1)"
  by (subst walk.simps) (simp add: first_parent_def split: option.splits list.splits)

lemma node_cases:
  "map_of g c = None \<or> parentless g c \<or> (\<exists>p. first_parent g c = Some p)"
  by (simp add: parentless_def first_parent_def split: option.splits list.splits)

lemma first_parent_in_graph: "first_parent g c = Some p \<Longrightarrow> map_of g c \<noteq> None"
  by (simp add: first_parent_def split: option.splits)

lemma parentless_no_parent: "parentless g c \<Longrightarrow> first_parent g c = None"
  by (simp add: parentless_def first_parent_def split: option.splits)

lemma walk_chain:
  assumes "walk g c path depth = Some y" and "y = Inr (d, p)"
  shows "\<exists>ext. p = path @ ext \<and> d = depth + length ext \<and> chain g c ext"
  using assms
proof (induct arbitrary: d p rule: walk.raw_induct[rotated 1, consumes 1])
  case (1 walk' g c path depth y)
  show ?case
  proof (cases "map_of g c")
    case None
    with 1 show ?thesis by simp
  next
    case (Some n)
    show ?thesis
    proof (cases "parents_of n")
      case Nil
      with Some 1 have "p = path" "d = depth" by auto
      moreover have "chain g c []" using Some Nil by (simp add: parentless_def)
      ultimately show ?thesis by auto
    next
      case (Cons q qs)
      have fp: "first_parent g c = Some q" using Some Cons by (simp add: first_parent_def)
      show ?thesis
      proof (cases "q = root_id")
        case True
        with Some Cons 1 have "p = path @ [q]" "d = depth + 1" by auto
        moreover have "chain g c [q]" using fp True by simp
        ultimately show ?thesis by (intro exI[of _ "[q]"]) (simp del: chain.simps)
      next
        case False
        with Some Cons 1 have "walk' g q (path @ [q]) (depth + 1) = Some y" by simp
        from 1(1)[OF this 1(3)] obtain ext where
          "p = (path @ [q]) @ ext" "d = (depth + 1) + length ext" "chain g q ext" by blast
        then show ?thesis using fp False by (intro exI[of _ "q # ext"]) simp
      qed
    qed
  qed
qed

lemma chain_links:
  "chain g c ext \<Longrightarrow> Suc k < length (c # ext) \<Longrightarrow> first_parent g ((c # ext) ! k) = Some ((c # ext) ! Suc k)"
proof (induction ext arbitrary: c k)
  case Nil
  then show ?case by simp
next
  case (Cons x xs)
  show ?case
  proof (cases k)
    case 0
    with Cons show ?thesis by simp
  next
    case (Suc j)
    with Cons.prems have "x \<noteq> root_id \<or> xs = []" by (auto split: if_splits)
    with Cons Suc show ?thesis by (auto split: if_splits)
  qed
qed

lemma chain_interior:
  "chain g c ext \<Longrightarrow> 0 < k \<Longrightarrow> Suc k < length (c # ext) \<Longrightarrow> (c # ext) ! k \<noteq> root_id"
proof (induction ext arbitrary: c k)
  case Nil
  then show ?case by simp
next
  case (Cons x xs)
  from Cons.prems obtain j where k: "k = Suc j" by (cases k) auto
  from Cons.prems k have xs: "xs \<noteq> []" by auto
  with Cons.prems have nr: "x \<noteq> root_id" and ch: "chain g x xs" by (auto split: if_splits)
  show ?case
  proof (cases j)
    case 0
    with k nr show ?thesis by simp
  next
    case (Suc i)
    with Cons.IH[OF ch, of j] Cons.prems k show ?thesis by simp
  qed
qed

lemma chain_last:
  "chain g c ext \<Longrightarrow> (ext \<noteq> [] \<and> last (c # ext) = root_id) \<or> parentless g (last (c # ext))"
  by (induction ext arbitrary: c) (auto split: if_splits)

lemma ends_walk:
  "ends g k c \<Longrightarrow> c \<noteq> root_id \<Longrightarrow> \<exists>r. walk g c path depth = Some (Inr r)"
proof (induction k arbitrary: c path depth)
  case 0
  then show ?case by (simp add: walk_parentless)
next
  case (Suc k)
  show ?case
  proof (cases "parentless g c")
    case True
    then show ?thesis by (simp add: walk_parentless)
  next
    case False
    with Suc.prems obtain p where fp: "first_parent g c = Some p" and e: "ends g k p"
      by (auto split: option.splits)
    show ?thesis
    proof (cases "p = root_id")
      case True
      with fp show ?thesis by (simp add: walk_root)
    next
      case False
      with Suc.IH[OF e False] fp show ?thesis by (simp add: walk_step)
    qed
  qed
qed

lemma walk_terminates:
  assumes pre: "\<forall>c \<in> fst ` set g. \<exists>k. ends g k c"
  shows "walk g c path depth \<noteq> None"
proof -
  consider "map_of g c = None" | "parentless g c" | p where "first_parent g c = Some p"
    using node_cases[of g c] by auto
  then show ?thesis
  proof cases
    case 1 then show ?thesis by (simp add: walk_missing)
  next
    case 2 then show ?thesis by (simp add: walk_parentless)
  next
    case 3
    show ?thesis
    proof (cases "p = root_id")
      case True
      with 3 show ?thesis by (simp add: walk_root)
    next
      case False
      show ?thesis
      proof (cases "map_of g p")
        case None
        with 3 False show ?thesis by (simp add: walk_step walk_missing)
      next
        case (Some n)
        then have "p \<in> fst ` set g" by (metis map_of_eq_None_iff option.distinct(1))
        with pre obtain k where "ends g k p" by blast
        from ends_walk[OF this False] 3 False show ?thesis by (auto simp: walk_step)
      qed
    qed
  qed
qed

lemma walk_closed_set:
  assumes "walk g c path depth = Some y"
    and "\<forall>x\<in>S. \<exists>p. first_parent g x = Some p \<and> p \<noteq> root_id \<and> p \<in> S"
  shows "c \<notin> S"
  using assms
proof (induct rule: walk.raw_induct[rotated 1, consumes 1])
  case (1 walk' g c path depth y)
  show ?case
  proof
    assume "c \<in> S"
    with 1(3) obtain p where fp: "first_parent g c = Some p" and nr: "p \<noteq> root_id" and pS: "p \<in> S"
      by blast
    from fp nr 1(2) have "walk' g p (path @ [p]) (depth + 1) = Some y"
      by (auto simp: first_parent_def split: option.splits list.splits)
    from 1(1)[OF this 1(3)] pS show False by simp
  qed
qed

lemma finite_parent_rel: "finite (parent_rel g)"
proof -
  have "parent_rel g \<subseteq> (\<lambda>c. (c, the (first_parent g c))) ` (fst ` set g)"
  proof
    fix x assume "x \<in> parent_rel g"
    then obtain c p where x: "x = (c, p)" and fp: "first_parent g c = Some p"
      by (auto simp: parent_rel_def)
    from first_parent_in_graph[OF fp] have "c \<in> fst ` set g"
      by (simp add: map_of_eq_None_iff)
    with x fp show "x \<in> (\<lambda>c. (c, the (first_parent g c))) ` (fst ` set g)" by force
  qed
  then show ?thesis by (rule finite_subset) simp
qed

lemma walk_acyclic:
  assumes "acyclic (parent_rel g)"
  shows "walk g c path depth \<noteq> None"
proof -
  have "wf ((parent_rel g)\<inverse>)"
    using finite_parent_rel assms by (rule finite_acyclic_wf_converse)
  then show ?thesis
  proof (induction c arbitrary: path depth rule: wf_induct_rule)
    case (less c)
    consider "map_of g c = None" | "parentless g c" | p where "first_parent g c = Some p"
      using node_cases[of g c] by auto
    then show ?case
    proof cases
      case 1 then show ?thesis by (simp add: walk_missing)
    next
      case 2 then show ?thesis by (simp add: walk_parentless)
    next
      case 3
      then have "(p, c) \<in> (parent_rel g)\<inverse>" by (simp add: parent_rel_def)
      from less[OF this] 3 show ?thesis
        by (cases "p = root_id") (simp_all add: walk_root walk_step)
    qed
  qed
qed

lemma lineage_in_graph:
  assumes "load_graph sv s = (Inr g, s')" and "map_of g i \<noteq> None"
  shows "get_rank_and_path sv (PStr i) s =
           (case walk g i [i] 0 of
              None \<Rightarrow> None
            | Some (Inl e) \<Rightarrow> Some (Inl e, s')
            | Some (Inr (depth, path)) \<Rightarrow> Some (Inr (Some depth, rev path), s'))"
  using assms by (auto simp add: get_rank_and_path_def)

lemma lineage_none_iff:
  assumes "load_graph sv s = (Inr g, s')"
  shows "(get_rank_and_path sv i s = None) = (\<exists>j. in_graph g i = Some j \<and> walk g j [j] 0 = None)"
  using assms by (auto simp add: get_rank_and_path_def split: option.splits sum.splits)

lemma sample_lineage_ptosis:
  "get_rank_and_path (sample_services ts sc) (PStr ''HP:0000508'') fresh_process
     = Some (Inr (Some 2, [''HP:0000001'', ''HP:0000118'', ''HP:0000508'']),
             \<lparr>fetches = 1, graph_cache = Some hpo_sample\<rparr>)"
  by (simp add: get_rank_and_path_def sample_load walk.simps hpo_sample_def parents_of_def root_id_def)

text \<open>
  Claim C7. When \<^verbatim>\<open>load_graph\<close> gives the graph \<open>g\<close>: for an identifier that is not a
  node the lineage resolver returns (None, []); for a node that lists no parent (no
  \<^verbatim>\<open>is_a\<close> entry, or an empty one) it returns depth 0 and the path of the identifier alone,
  as a normal result; the root without parents is one such node.
\<close>

theorem lineage_absent_and_parentless:
  assumes "load_graph sv s = (Inr g, s')"
  shows "(map_of g i = None \<longrightarrow> get_rank_and_path sv (PStr i) s = Some (Inr (None, []), s'))
       \<and> (\<forall>n. map_of g i = Some n \<and> (node_is_a n = None \<or> node_is_a n = Some []) \<longrightarrow>
            get_rank_and_path sv (PStr i) s = Some (Inr (Some 0, [i]), s'))
       \<and> (\<forall>n. map_of g ''HP:0000001'' = Some n \<and> node_is_a n = None \<longrightarrow>
            get_rank_and_path sv (PStr ''HP:0000001'') s = Some (Inr (Some 0, [''HP:0000001'']), s'))"
  using assms by (auto simp add: get_rank_and_path_def walk.simps parents_of_def)

theorem lineage_absent_and_parentless_witness:
  "get_rank_and_path (sample_services [] 0) (PStr ''HP:9999999'') fresh_process
     = Some (Inr (None, []), \<lparr>fetches = 1, graph_cache = Some hpo_sample\<rparr>)
   \<and> get_rank_and_path (sample_services [] 0) (PStr ''HP:0000057'') fresh_process
     = Some (Inr (Some 0, [''HP:0000057'']), \<lparr>fetches = 1, graph_cache = Some hpo_sample\<rparr>)
   \<and> get_rank_and_path (sample_services [] 0) (PStr ''HP:0000001'') fresh_process
     = Some (Inr (Some 0, [''HP:0000001'']), \<lparr>fetches = 1, graph_cache = Some hpo_sample\<rparr>)"
proof -
  have absent: "map_of hpo_sample ''HP:9999999'' = None"
    by (simp add: hpo_sample_def)
  have retired:
    "map_of hpo_sample ''HP:0000057''
       = Some \<lparr>node_name = Some ''Retired term'', node_synonyms = None, node_def = None, node_is_a = None\<rparr>"
    by (simp add: hpo_sample_def)
  have root:
    "map_of hpo_sample ''HP:0000001''
       = Some \<lparr>node_name = Some ''All'', node_synonyms = None, node_def = None, node_is_a = None\<rparr>"
    by (simp add: hpo_sample_def)
  from lineage_absent_and_parentless[OF sample_load, of "''HP:9999999''" "[]" 0]
       lineage_absent_and_parentless[OF sample_load, of "''HP:0000057''" "[]" 0]
       absent retired root
  show ?thesis by simp
qed

text \<open>
  Claim C8. For an identifier that is a node of the graph and for which the resolver
  returns: the path is not empty and ends with the queried identifier; its first
  element is the root, reached by at least one hop, or a node without parents; each
  element but the first has the element before it as its first listed parent, and so
  is not without parents; no element strictly between the first and the queried one is
  the root; and the depth is the number of hops, the length of the path minus one.
  So the walk stops at the first end it reaches, where the test for parents applies to
  every node visited and the test for the root to every node reached by a hop (the
  loop compares \<^verbatim>\<open>current\<close> with the root after it has moved to a parent).
\<close>

theorem lineage_path_shape:
  assumes load: "load_graph sv s = (Inr g, s')"
    and present: "map_of g i \<noteq> None"
    and ret: "get_rank_and_path sv (PStr i) s = Some (Inr (rank, path), s'')"
  shows "path \<noteq> [] \<and> last path = i
       \<and> (hd path = root_id \<and> 1 < length path \<or> parentless g (hd path))
       \<and> (\<forall>k. Suc k < length path \<longrightarrow> first_parent g (path ! Suc k) = Some (path ! k))
       \<and> (\<forall>k. 0 < k \<and> k < length path \<longrightarrow> \<not> parentless g (path ! k))
       \<and> (\<forall>k. 0 < k \<and> Suc k < length path \<longrightarrow> path ! k \<noteq> root_id)
       \<and> rank = Some (length path - 1)"
proof -
  from ret lineage_in_graph[OF load present]
  obtain d p where w: "walk g i [i] 0 = Some (Inr (d, p))" and r: "rank = Some d" and pa: "path = rev p"
    by (auto split: option.splits sum.splits)
  from walk_chain[OF w refl] obtain ext where
    p: "p = [i] @ ext" and d: "d = length ext" and ch: "chain g i ext" by auto
  let ?L = "i # ext"
  have path: "path = rev ?L" using pa p by simp
  have len: "length path = Suc (length ext)" using path by simp
  have nth: "path ! k = ?L ! (length ext - k)" if "k < length path" for k
    using that path rev_nth[of k ?L] by simp
  have c1: "path \<noteq> []" using path by simp
  have c2: "last path = i" using path by simp
  have hd: "hd path = last ?L" unfolding path by (rule hd_rev)
  have c3: "hd path = root_id \<and> 1 < length path \<or> parentless g (hd path)"
    using chain_last[OF ch] hd len by auto
  have c4: "first_parent g (path ! Suc k) = Some (path ! k)" if "Suc k < length path" for k
  proof -
    from that len have j: "Suc (length ext - Suc k) < length ?L" by simp
    have "length ext - k = Suc (length ext - Suc k)" using that len by simp
    with chain_links[OF ch j] nth[of k] nth[of "Suc k"] that show ?thesis by simp
  qed
  have c5: "path ! k \<noteq> root_id" if "0 < k" "Suc k < length path" for k
  proof -
    from that len have "0 < length ext - k" "Suc (length ext - k) < length ?L" by simp_all
    from chain_interior[OF ch this] nth[of k] that show ?thesis by simp
  qed
  have c6: "rank = Some (length path - 1)" using r d len by simp
  have c7: "\<not> parentless g (path ! k)" if "0 < k" "k < length path" for k
  proof
    assume "parentless g (path ! k)"
    then have "first_parent g (path ! k) = None" by (rule parentless_no_parent)
    moreover from that obtain j where "k = Suc j" by (cases k) auto
    ultimately show False using c4[of j] that by simp
  qed
  from c1 c2 c3 c4 c5 c6 c7 show ?thesis by blast
qed

theorem lineage_path_shape_witness:
  "last [''HP:0000001'', ''HP:0000118'', ''HP:0000508''] = ''HP:0000508''
   \<and> hd [''HP:0000001'', ''HP:0000118'', ''HP:0000508''] = root_id
   \<and> first_parent hpo_sample ''HP:0000508'' = Some ''HP:0000118''
   \<and> first_parent hpo_sample ''HP:0000118'' = Some ''HP:0000001''
   \<and> ''HP:0000118'' \<noteq> root_id
   \<and> Some (2::nat) = Some (length [''HP:0000001'', ''HP:0000118'', ''HP:0000508''] - 1)"
proof -
  have present: "map_of hpo_sample ''HP:0000508'' \<noteq> None" by (simp add: hpo_sample_def)
  note shape = lineage_path_shape[OF sample_load present sample_lineage_ptosis]
  from shape show ?thesis
    by (simp add: hpo_sample_def first_parent_def parents_of_def root_id_def)
qed

text \<open>
  Claim C10. The loop terminates from every start when, from every node of the graph,
  following first parents reaches the root or a node without parents; then the
  resolver returns for every identifier. It terminates on every graph whose
  first-parent relation is acyclic. It does not terminate from a start inside a set of
  nodes that is closed under the first parent and whose first parents are never the
  root: a first-parent cycle that avoids the root is such a set.
\<close>

theorem walk_termination:
  "((\<forall>x\<in>fst ` set g. \<exists>k. ends g k x) \<longrightarrow> walk g c path depth \<noteq> None)
   \<and> ((\<forall>x\<in>fst ` set g. \<exists>k. ends g k x) \<and> load_graph sv s = (Inr g, s') \<longrightarrow>
        get_rank_and_path sv i s \<noteq> None)
   \<and> (acyclic (parent_rel g) \<longrightarrow> walk g c path depth \<noteq> None)
   \<and> (c \<in> S \<and> (\<forall>x\<in>S. \<exists>p. first_parent g x = Some p \<and> p \<noteq> root_id \<and> p \<in> S) \<longrightarrow>
        walk g c path depth = None)"
proof (intro conjI impI)
  assume "\<forall>x\<in>fst ` set g. \<exists>k. ends g k x"
  then show "walk g c path depth \<noteq> None" by (rule walk_terminates)
next
  assume a: "(\<forall>x\<in>fst ` set g. \<exists>k. ends g k x) \<and> load_graph sv s = (Inr g, s')"
  then have "\<And>j. walk g j [j] 0 \<noteq> None" by (simp add: walk_terminates)
  with a show "get_rank_and_path sv i s \<noteq> None" by (simp add: lineage_none_iff)
next
  assume "acyclic (parent_rel g)"
  then show "walk g c path depth \<noteq> None" by (rule walk_acyclic)
next
  assume a: "c \<in> S \<and> (\<forall>x\<in>S. \<exists>p. first_parent g x = Some p \<and> p \<noteq> root_id \<and> p \<in> S)"
  show "walk g c path depth = None"
  proof (cases "walk g c path depth")
    case None
    then show ?thesis .
  next
    case (Some y)
    from walk_closed_set[OF Some] a show ?thesis by blast
  qed
qed

lemma sample_ends: "\<forall>x\<in>fst ` set hpo_sample. \<exists>k. ends hpo_sample k x"
proof
  fix x assume "x \<in> fst ` set hpo_sample"
  then have "ends hpo_sample (Suc (Suc 0)) x"
    by (auto simp add: hpo_sample_def parentless_def first_parent_def parents_of_def root_id_def)
  then show "\<exists>k. ends hpo_sample k x" ..
qed

lemma sample_acyclic: "acyclic (parent_rel hpo_sample)"
proof (rule acyclicI_order)
  fix a b assume "(a, b) \<in> parent_rel hpo_sample"
  then show "(if b = ''HP:0000508'' then 2 else if b = ''HP:0000118'' then 1 else (0::nat))
           < (if a = ''HP:0000508'' then 2 else if a = ''HP:0000118'' then 1 else 0)"
    by (auto simp add: parent_rel_def first_parent_def hpo_sample_def parents_of_def split: if_splits)
qed

lemma cycle_closed:
  "\<forall>x\<in>{''HP:0000002'', ''HP:0000003''}.
     \<exists>p. first_parent hpo_cycle x = Some p \<and> p \<noteq> root_id \<and> p \<in> {''HP:0000002'', ''HP:0000003''}"
  by (simp add: first_parent_def hpo_cycle_def parents_of_def root_id_def)

theorem walk_termination_witness:
  "walk hpo_sample ''HP:0000508'' [''HP:0000508''] 0 \<noteq> None
   \<and> get_rank_and_path (sample_services [] 0) (PStr ''HP:0000508'') fresh_process \<noteq> None
   \<and> acyclic (parent_rel hpo_sample)
   \<and> walk hpo_cycle ''HP:0000002'' [''HP:0000002''] 0 = None"
  using walk_termination[of hpo_sample "''HP:0000508''" "[''HP:0000508'']" 0 "sample_services [] 0"
          fresh_process "\<lparr>fetches = 1, graph_cache = Some hpo_sample\<rparr>" "PStr ''HP:0000508''" "{}"]
        walk_termination[of hpo_cycle "''HP:0000002''" "[''HP:0000002'']" 0 _ _ _ _
          "{''HP:0000002'', ''HP:0000003''}"]
        sample_ends sample_acyclic sample_load[of "[]" 0] cycle_closed
  by simp

section \<open>The pipeline\<close>

lemma pipeline_candidate:
  assumes "map_symptoms_to_hpo (http sv) symptom = Inr (hpo_term, hpo_id)"
    and "hpo_term \<noteq> PNone" and "hpo_id \<noteq> PNone"
    and "get_hpo_definitions_and_synonyms sv hpo_id s = (Inr (synonyms, definition), s1)"
    and "get_rank_and_path sv hpo_id s1 = Some (Inr (rank, path), s2)"
  shows "map_symptoms_to_hpo_pipeline sv symptom s =
           (case acceptable (str_lower sv) (extract_score sv symptom hpo_term) hpo_term synonyms of
              Inl e \<Rightarrow> Some (Inl e, s2)
            | Inr ok \<Rightarrow>
                Some (Inr (match_result symptom hpo_term hpo_id definition rank path
                             (extract_score sv symptom hpo_term)
                             (if ok then ''matched'' else ''not matched'')), s2))"
  using assms
  by (simp add: map_symptoms_to_hpo_pipeline_def estimate_fuzzy_score_def match_result_def
        split: sum.split)

lemma acceptable_true_iff:
  "(acceptable lw score hpo_term synonyms = Inr True)
     = (80 \<le> score \<or> name_in_synonyms lw hpo_term synonyms)"
  by (cases hpo_term; cases synonyms) (auto simp add: acceptable_def)

lemma acceptable_false_iff:
  "(acceptable lw score hpo_term synonyms = Inr False)
     = (\<not> 80 \<le> score \<and> (\<exists>t syns. hpo_term = PStr t \<and> synonyms = Some syns \<and> lw t \<notin> set (map lw syns)))"
  by (cases hpo_term; cases synonyms) (auto simp add: acceptable_def)

lemma pipeline_no_candidate:
  "map_symptoms_to_hpo (http sv) symptom = Inr (hpo_term, hpo_id) \<Longrightarrow>
   hpo_term = PNone \<or> hpo_id = PNone \<Longrightarrow>
     map_symptoms_to_hpo_pipeline sv symptom s
       = Some (Inr [PStr symptom, PNone, PNone, PInt 0, PStr ''not matched''], s)"
  by (simp add: map_symptoms_to_hpo_pipeline_def)

lemma sample_score: "extract_score (sample_services ts sc) q c = sc"
  by (simp add: sample_services_def)

lemma sample_lower: "str_lower (sample_services ts sc) = ascii_lower"
  by (simp add: sample_services_def)

lemma sample_resolver:
  "get_hpo_definitions_and_synonyms (sample_services ts sc) (PStr i) s
     = (case map_of hpo_sample i of
          None \<Rightarrow> (Inr (None, None), s\<lparr>fetches := Suc (fetches s)\<rparr>)
        | Some n \<Rightarrow> (Inr (Some (synonyms_of n), Some (definition_of n)), s\<lparr>fetches := Suc (fetches s)\<rparr>))"
  by (simp add: get_hpo_definitions_and_synonyms_def read_obo_def sample_services_def
        split: option.split)

lemma sample_load_any:
  "graph_cache s = None \<Longrightarrow>
     load_graph (sample_services ts sc) s
       = (Inr hpo_sample, s\<lparr>fetches := Suc (fetches s), graph_cache := Some hpo_sample\<rparr>)"
  by (simp add: load_graph_def read_obo_def sample_services_def)

lemma sample_lineage_508:
  "graph_cache s = None \<Longrightarrow>
     get_rank_and_path (sample_services ts sc) (PStr ''HP:0000508'') s
       = Some (Inr (Some 2, [''HP:0000001'', ''HP:0000118'', ''HP:0000508'']),
               s\<lparr>fetches := Suc (fetches s), graph_cache := Some hpo_sample\<rparr>)"
  by (simp add: get_rank_and_path_def sample_load_any)
     (simp add: walk.simps hpo_sample_def parents_of_def root_id_def)

lemma sample_lineage_118:
  "graph_cache s = None \<Longrightarrow>
     get_rank_and_path (sample_services ts sc) (PStr ''HP:0000118'') s
       = Some (Inr (Some 1, [''HP:0000001'', ''HP:0000118'']),
               s\<lparr>fetches := Suc (fetches s), graph_cache := Some hpo_sample\<rparr>)"
  by (simp add: get_rank_and_path_def sample_load_any)
     (simp add: walk.simps hpo_sample_def parents_of_def root_id_def)

lemma sample_search_empty:
  "map_symptoms_to_hpo (http (sample_services [] sc)) symptom = Inr (PNone, PNone)"
  by (simp add: map_symptoms_to_hpo_def search_attempt_def raise_for_status_def reply_terms_def
        sample_services_def)

lemma sample_search_hit:
  "map_symptoms_to_hpo (http (sample_services [hit nm ident] sc)) symptom = Inr (PStr nm, PStr ident)"
  by (simp add: map_symptoms_to_hpo_def search_attempt_def raise_for_status_def reply_terms_def
        sample_services_def hit_def)

text \<open>
  Claim C1. When the search yields no candidate the pipeline returns at once, with
  status "not matched" and score 0, and the process state untouched; but the tuple it
  returns has five fields (symptom, None, None, 0, "not matched"), not the eight of the
  Match Result: definition, rank and path are missing.
\<close>

theorem pipeline_no_candidate_five_fields:
  "map_symptoms_to_hpo (http (sample_services [] 0)) ''xyzzynonexistentsymptom'' = Inr (PNone, PNone)
   \<and> map_symptoms_to_hpo_pipeline (sample_services [] 0) ''xyzzynonexistentsymptom'' fresh_process
       = Some (Inr [PStr ''xyzzynonexistentsymptom'', PNone, PNone, PInt 0, PStr ''not matched''],
               fresh_process)
   \<and> map_symptoms_to_hpo_pipeline (sample_services [] 0) ''xyzzynonexistentsymptom'' fresh_process
       \<noteq> Some (Inr [PStr ''xyzzynonexistentsymptom'', PNone, PNone, PNone, PNone, PList [], PInt 0,
                     PStr ''not matched''],
               fresh_process)"
  by (simp add: sample_search_empty pipeline_no_candidate[OF sample_search_empty])

text \<open>
  Claim C3. The search yields the candidate ("Zzz", "HP:9999999"), the scorer reports
  10, and the identifier is not a node of the ontology, so the resolver returns
  (None, None). The pipeline then iterates over the synonyms, which are \<^verbatim>\<open>None\<close>, and
  the \<^verbatim>\<open>TypeError\<close> leaves the pipeline: no Match Result is returned.
\<close>

theorem pipeline_raises_on_unknown_identifier:
  "map_symptoms_to_hpo (http (sample_services [hit ''Zzz'' ''HP:9999999''] 10)) ''abc''
     = Inr (PStr ''Zzz'', PStr ''HP:9999999'')
   \<and> get_hpo_definitions_and_synonyms (sample_services [hit ''Zzz'' ''HP:9999999''] 10)
         (PStr ''HP:9999999'') fresh_process
     = (Inr (None, None), \<lparr>fetches = 1, graph_cache = None\<rparr>)
   \<and> map_symptoms_to_hpo_pipeline (sample_services [hit ''Zzz'' ''HP:9999999''] 10) ''abc'' fresh_process
     = Some (Inl TypeError, \<lparr>fetches = 2, graph_cache = Some hpo_sample\<rparr>)"
proof -
  let ?sv = "sample_services [hit ''Zzz'' ''HP:9999999''] 10"
  have search: "map_symptoms_to_hpo (http ?sv) ''abc'' = Inr (PStr ''Zzz'', PStr ''HP:9999999'')"
    by (rule sample_search_hit)
  have syn: "get_hpo_definitions_and_synonyms ?sv (PStr ''HP:9999999'') fresh_process
               = (Inr (None, None), \<lparr>fetches = 1, graph_cache = None\<rparr>)"
    by (simp add: sample_resolver fresh_process_def hpo_sample_def)
  have lin: "get_rank_and_path ?sv (PStr ''HP:9999999'') \<lparr>fetches = 1, graph_cache = None\<rparr>
               = Some (Inr (None, []), \<lparr>fetches = 2, graph_cache = Some hpo_sample\<rparr>)"
    by (simp add: get_rank_and_path_def sample_load_any hpo_sample_def)
  have run: "map_symptoms_to_hpo_pipeline ?sv ''abc'' fresh_process
               = Some (Inl TypeError, \<lparr>fetches = 2, graph_cache = Some hpo_sample\<rparr>)"
    using pipeline_candidate[OF search _ _ syn lin]
    by (simp add: sample_score acceptable_def)
  from search syn run show ?thesis by simp
qed

text \<open>
  Claim C2, as amended. The status is assigned in step 5, after the resolver and the
  lineage have run, and neither of them is guarded: for a symptom with a candidate the
  pipeline assigns a status only when both return. So: when the search yields a
  candidate and steps 3 and 4 return (the resolver with \<open>synonyms\<close> and \<open>definition\<close>,
  the lineage with \<open>rank\<close> and \<open>path\<close>), the pipeline returns the Match Result with
  status "matched" exactly when the score is at least 80 or the candidate name, folded
  by \<^verbatim>\<open>str.lower\<close>, is among the folded synonyms; no other result carries the status
  "matched". A score of exactly 80 gives "matched". A score below 80, such as 79, with a
  candidate name that is a string and is not among the synonyms of the list the
  resolver returned, gives "not matched".
\<close>

theorem pipeline_status_matched_iff:
  assumes cand: "map_symptoms_to_hpo (http sv) symptom = Inr (hpo_term, hpo_id)"
    and some: "hpo_term \<noteq> PNone" "hpo_id \<noteq> PNone"
    and syn: "get_hpo_definitions_and_synonyms sv hpo_id s = (Inr (synonyms, definition), s1)"
    and lin: "get_rank_and_path sv hpo_id s1 = Some (Inr (rank, path), s2)"
    and score: "score = extract_score sv symptom hpo_term"
  shows "((map_symptoms_to_hpo_pipeline sv symptom s
            = Some (Inr (match_result symptom hpo_term hpo_id definition rank path score ''matched''), s2))
          = (80 \<le> score \<or> name_in_synonyms (str_lower sv) hpo_term synonyms))
       \<and> ((\<exists>fields s'. map_symptoms_to_hpo_pipeline sv symptom s = Some (Inr fields, s')
              \<and> last fields = PStr ''matched'')
          = (80 \<le> score \<or> name_in_synonyms (str_lower sv) hpo_term synonyms))
       \<and> (score = 80 \<longrightarrow>
            map_symptoms_to_hpo_pipeline sv symptom s
              = Some (Inr (match_result symptom hpo_term hpo_id definition rank path 80 ''matched''), s2))
       \<and> (score < 80 \<and> (\<exists>t syns. hpo_term = PStr t \<and> synonyms = Some syns \<and> str_lower sv t \<notin> set (map (str_lower sv) syns)) \<longrightarrow>
            map_symptoms_to_hpo_pipeline sv symptom s
              = Some (Inr (match_result symptom hpo_term hpo_id definition rank path score ''not matched''), s2))"
proof -
  note run = pipeline_candidate[OF cand some syn lin, folded score]
  let ?cond = "80 \<le> score \<or> name_in_synonyms (str_lower sv) hpo_term synonyms"
  have yes: "map_symptoms_to_hpo_pipeline sv symptom s
               = Some (Inr (match_result symptom hpo_term hpo_id definition rank path score ''matched''), s2)"
    if ?cond
  proof -
    from that have "acceptable (str_lower sv) score hpo_term synonyms = Inr True" by (simp add: acceptable_true_iff)
    with run show ?thesis by simp
  qed
  have no: "\<not> (\<exists>fields s'. map_symptoms_to_hpo_pipeline sv symptom s = Some (Inr fields, s')
              \<and> last fields = PStr ''matched'')"
    if "\<not> ?cond"
  proof -
    from that have "acceptable (str_lower sv) score hpo_term synonyms \<noteq> Inr True" by (simp add: acceptable_true_iff)
    then consider e where "acceptable (str_lower sv) score hpo_term synonyms = Inl e"
      | "acceptable (str_lower sv) score hpo_term synonyms = Inr False"
      by (cases "acceptable (str_lower sv) score hpo_term synonyms") auto
    then show ?thesis
      using run by cases (auto simp add: match_result_def)
  qed
  have last_matched: "last (match_result symptom hpo_term hpo_id definition rank path score ''matched'')
                        = PStr ''matched''"
    by (simp add: match_result_def)
  have c1: "(map_symptoms_to_hpo_pipeline sv symptom s
            = Some (Inr (match_result symptom hpo_term hpo_id definition rank path score ''matched''), s2))
          = ?cond"
  proof
    assume "map_symptoms_to_hpo_pipeline sv symptom s
            = Some (Inr (match_result symptom hpo_term hpo_id definition rank path score ''matched''), s2)"
    with last_matched
    have "\<exists>fields s'. map_symptoms_to_hpo_pipeline sv symptom s = Some (Inr fields, s')
              \<and> last fields = PStr ''matched''" by blast
    with no show ?cond by blast
  next
    assume ?cond
    then show "map_symptoms_to_hpo_pipeline sv symptom s
            = Some (Inr (match_result symptom hpo_term hpo_id definition rank path score ''matched''), s2)"
      by (rule yes)
  qed
  have c2: "(\<exists>fields s'. map_symptoms_to_hpo_pipeline sv symptom s = Some (Inr fields, s')
              \<and> last fields = PStr ''matched'') = ?cond"
  proof
    assume "\<exists>fields s'. map_symptoms_to_hpo_pipeline sv symptom s = Some (Inr fields, s')
              \<and> last fields = PStr ''matched''"
    with no show ?cond by blast
  next
    assume ?cond
    from yes[OF this] last_matched
    show "\<exists>fields s'. map_symptoms_to_hpo_pipeline sv symptom s = Some (Inr fields, s')
              \<and> last fields = PStr ''matched''" by blast
  qed
  have c3: "score = 80 \<longrightarrow>
            map_symptoms_to_hpo_pipeline sv symptom s
              = Some (Inr (match_result symptom hpo_term hpo_id definition rank path 80 ''matched''), s2)"
    using yes by auto
  have c4: "score < 80 \<and> (\<exists>t syns. hpo_term = PStr t \<and> synonyms = Some syns \<and> str_lower sv t \<notin> set (map (str_lower sv) syns)) \<longrightarrow>
            map_symptoms_to_hpo_pipeline sv symptom s
              = Some (Inr (match_result symptom hpo_term hpo_id definition rank path score ''not matched''), s2)"
  proof
    assume a: "score < 80 \<and> (\<exists>t syns. hpo_term = PStr t \<and> synonyms = Some syns \<and> str_lower sv t \<notin> set (map (str_lower sv) syns))"
    then have "acceptable (str_lower sv) score hpo_term synonyms = Inr False" by (simp add: acceptable_false_iff)
    with run show "map_symptoms_to_hpo_pipeline sv symptom s
              = Some (Inr (match_result symptom hpo_term hpo_id definition rank path score ''not matched''), s2)"
      by simp
  qed
  from c1 c2 c3 c4 show ?thesis by blast
qed

theorem pipeline_status_matched_iff_witness:
  "map_symptoms_to_hpo_pipeline (sample_services [hit ''Ptosis'' ''HP:0000508''] 80) ''ptosis'' fresh_process
     = Some (Inr (match_result ''ptosis'' (PStr ''Ptosis'') (PStr ''HP:0000508'')
                    (Some ''Drooping of the upper eyelid.'') (Some 2)
                    [''HP:0000001'', ''HP:0000118'', ''HP:0000508''] 80 ''matched''),
             \<lparr>fetches = 2, graph_cache = Some hpo_sample\<rparr>)
   \<and> map_symptoms_to_hpo_pipeline (sample_services [hit ''Ptosis'' ''HP:0000508''] 79) ''droopy lid'' fresh_process
     = Some (Inr (match_result ''droopy lid'' (PStr ''Ptosis'') (PStr ''HP:0000508'')
                    (Some ''Drooping of the upper eyelid.'') (Some 2)
                    [''HP:0000001'', ''HP:0000118'', ''HP:0000508''] 79 ''matched''),
             \<lparr>fetches = 2, graph_cache = Some hpo_sample\<rparr>)
   \<and> map_symptoms_to_hpo_pipeline (sample_services [hit ''Phenotypic abnormality'' ''HP:0000118''] 79)
        ''odd organ'' fresh_process
     = Some (Inr (match_result ''odd organ'' (PStr ''Phenotypic abnormality'') (PStr ''HP:0000118'')
                    (Some ''NA'') (Some 1) [''HP:0000001'', ''HP:0000118''] 79 ''not matched''),
             \<lparr>fetches = 2, graph_cache = Some hpo_sample\<rparr>)"
proof -
  let ?s1 = "\<lparr>fetches = 1, graph_cache = None\<rparr>"
  let ?s2 = "\<lparr>fetches = 2, graph_cache = Some hpo_sample\<rparr>"
  have syn508: "get_hpo_definitions_and_synonyms (sample_services ts sc) (PStr ''HP:0000508'') fresh_process
                  = (Inr (Some [''Blepharoptosis'', ''PTOSIS''], Some ''Drooping of the upper eyelid.''), ?s1)"
    for ts sc
    by (simp add: sample_resolver fresh_process_def hpo_sample_def synonyms_of_def definition_of_def)
  have syn118: "get_hpo_definitions_and_synonyms (sample_services ts sc) (PStr ''HP:0000118'') fresh_process
                  = (Inr (Some [''Organ abnormality''], Some ''NA''), ?s1)"
    for ts sc
    by (simp add: sample_resolver fresh_process_def hpo_sample_def synonyms_of_def definition_of_def)
  have lin508: "get_rank_and_path (sample_services ts sc) (PStr ''HP:0000508'') ?s1
                  = Some (Inr (Some 2, [''HP:0000001'', ''HP:0000118'', ''HP:0000508'']), ?s2)"
    for ts sc
    using sample_lineage_508[of ?s1 ts sc] by simp
  have lin118: "get_rank_and_path (sample_services ts sc) (PStr ''HP:0000118'') ?s1
                  = Some (Inr (Some 1, [''HP:0000001'', ''HP:0000118'']), ?s2)"
    for ts sc
    using sample_lineage_118[of ?s1 ts sc] by simp
  have in_syn: "name_in_synonyms (str_lower (sample_services ts sc)) (PStr ''Ptosis'')
                  (Some [''Blepharoptosis'', ''PTOSIS''])"
    for ts sc
    by (simp add: sample_lower ascii_lower_def ascii_lower_char_def)
  have not_in: "str_lower (sample_services ts sc) ''Phenotypic abnormality''
                  \<notin> set (map (str_lower (sample_services ts sc)) [''Organ abnormality''])"
    for ts sc
    by (simp add: sample_lower ascii_lower_def ascii_lower_char_def)
  note at80 = pipeline_status_matched_iff[OF sample_search_hit _ _ syn508 lin508 sample_score[symmetric],
                 of "''Ptosis''" 80 "''ptosis''"]
  note at79 = pipeline_status_matched_iff[OF sample_search_hit _ _ syn508 lin508 sample_score[symmetric],
                 of "''Ptosis''" 79 "''droopy lid''"]
  note low = pipeline_status_matched_iff[OF sample_search_hit _ _ syn118 lin118 sample_score[symmetric],
                 of "''Phenotypic abnormality''" 79 "''odd organ''"]
  from at80 have r1: "map_symptoms_to_hpo_pipeline (sample_services [hit ''Ptosis'' ''HP:0000508''] 80) ''ptosis'' fresh_process
     = Some (Inr (match_result ''ptosis'' (PStr ''Ptosis'') (PStr ''HP:0000508'')
                    (Some ''Drooping of the upper eyelid.'') (Some 2)
                    [''HP:0000001'', ''HP:0000118'', ''HP:0000508''] 80 ''matched''), ?s2)"
    by simp
  from at79 in_syn have r2: "map_symptoms_to_hpo_pipeline (sample_services [hit ''Ptosis'' ''HP:0000508''] 79) ''droopy lid'' fresh_process
     = Some (Inr (match_result ''droopy lid'' (PStr ''Ptosis'') (PStr ''HP:0000508'')
                    (Some ''Drooping of the upper eyelid.'') (Some 2)
                    [''HP:0000001'', ''HP:0000118'', ''HP:0000508''] 79 ''matched''), ?s2)"
    by simp
  from low not_in have r3: "map_symptoms_to_hpo_pipeline (sample_services [hit ''Phenotypic abnormality'' ''HP:0000118''] 79)
        ''odd organ'' fresh_process
     = Some (Inr (match_result ''odd organ'' (PStr ''Phenotypic abnormality'') (PStr ''HP:0000118'')
                    (Some ''NA'') (Some 1) [''HP:0000001'', ''HP:0000118''] 79 ''not matched''), ?s2)"
    by simp
  from r1 r2 r3 show ?thesis by simp
qed

text \<open>
  The claim as first stated, for every symptom with a candidate, fails where step 3 or
  step 4 does not return. The search finds Ptosis and the scorer reports exactly 80 in
  both worlds below. In the first the ontology file cannot be fetched: the exception of
  \<^verbatim>\<open>obonet.read_obo\<close> leaves the resolver and the pipeline. In the second the candidate
  lies on a first-parent cycle: the walk of step 4 never ends, and neither does the
  pipeline. No status is assigned in either.
\<close>

lemma cycle_walk_none: "walk hpo_cycle ''HP:0000002'' path depth = None"
proof (cases "walk hpo_cycle ''HP:0000002'' path depth")
  case None
  then show ?thesis .
next
  case (Some y)
  from walk_closed_set[OF Some cycle_closed] show ?thesis by simp
qed

theorem pipeline_status_needs_steps_counterexample:
  "map_symptoms_to_hpo (http offline_services) ''ptosis'' = Inr (PStr ''Ptosis'', PStr ''HP:0000508'')
   \<and> extract_score offline_services ''ptosis'' (PStr ''Ptosis'') = 80
   \<and> map_symptoms_to_hpo_pipeline offline_services ''ptosis'' fresh_process
       = Some (Inl OntologyError, \<lparr>fetches = 1, graph_cache = None\<rparr>)
   \<and> map_symptoms_to_hpo (http cycle_services) ''ptosis'' = Inr (PStr ''Ptosis'', PStr ''HP:0000002'')
   \<and> extract_score cycle_services ''ptosis'' (PStr ''Ptosis'') = 80
   \<and> map_symptoms_to_hpo_pipeline cycle_services ''ptosis'' fresh_process = None"
proof -
  have s1: "map_symptoms_to_hpo (http offline_services) ''ptosis'' = Inr (PStr ''Ptosis'', PStr ''HP:0000508'')"
    by (simp add: map_symptoms_to_hpo_def search_attempt_def raise_for_status_def reply_terms_def
          offline_services_def hit_def)
  have e1: "extract_score offline_services ''ptosis'' (PStr ''Ptosis'') = 80"
    by (simp add: offline_services_def)
  have r1: "get_hpo_definitions_and_synonyms offline_services (PStr ''HP:0000508'') fresh_process
              = (Inl OntologyError, \<lparr>fetches = 1, graph_cache = None\<rparr>)"
    by (simp add: get_hpo_definitions_and_synonyms_def read_obo_def offline_services_def fresh_process_def)
  have p1: "map_symptoms_to_hpo_pipeline offline_services ''ptosis'' fresh_process
              = Some (Inl OntologyError, \<lparr>fetches = 1, graph_cache = None\<rparr>)"
    by (simp add: map_symptoms_to_hpo_pipeline_def s1 estimate_fuzzy_score_def r1)
  have s2: "map_symptoms_to_hpo (http cycle_services) ''ptosis'' = Inr (PStr ''Ptosis'', PStr ''HP:0000002'')"
    by (simp add: map_symptoms_to_hpo_def search_attempt_def raise_for_status_def reply_terms_def
          cycle_services_def hit_def)
  have e2: "extract_score cycle_services ''ptosis'' (PStr ''Ptosis'') = 80"
    by (simp add: cycle_services_def)
  have r2: "get_hpo_definitions_and_synonyms cycle_services (PStr ''HP:0000002'') fresh_process
              = (Inr (Some [], Some ''NA''), fresh_process\<lparr>fetches := Suc 0\<rparr>)"
    by (simp add: get_hpo_definitions_and_synonyms_def read_obo_def cycle_services_def fresh_process_def
          hpo_cycle_def synonyms_of_def definition_of_def)
  have l2: "get_rank_and_path cycle_services (PStr ''HP:0000002'') (fresh_process\<lparr>fetches := Suc 0\<rparr>) = None"
  proof -
    have "load_graph cycle_services (fresh_process\<lparr>fetches := Suc 0\<rparr>)
            = (Inr hpo_cycle, fresh_process\<lparr>fetches := Suc (Suc 0), graph_cache := Some hpo_cycle\<rparr>)"
      by (simp add: load_graph_def read_obo_def cycle_services_def fresh_process_def)
    moreover have "in_graph hpo_cycle (PStr ''HP:0000002'') = Some ''HP:0000002''"
      by (simp add: hpo_cycle_def)
    ultimately show ?thesis
      by (simp add: lineage_none_iff cycle_walk_none)
  qed
  have p2: "map_symptoms_to_hpo_pipeline cycle_services ''ptosis'' fresh_process = None"
    by (simp add: map_symptoms_to_hpo_pipeline_def s2 estimate_fuzzy_score_def r2 l2)
  from s1 e1 p1 s2 e2 p2 show ?thesis by simp
qed

end
